theory Spec2Isabelle
  imports Complex_Main "HOL-Library.Word"
begin

section \<open>Data model (core/types.ts)\<close>

text \<open>
  JavaScript numbers are modelled exactly: scores, thresholds, importance and confidence
  as \<open>real\<close>, counters, limits and offsets as \<open>int\<close>; the rounding of double
  arithmetic and \<open>NaN\<close> are outside the model.  A \<open>Date\<close> is its time value in
  milliseconds.  Strings are lists of code units in the range 0..255.  Optional
  properties are \<open>option\<close>s, \<open>None\<close> standing for an absent property.
\<close>

type_synonym Date = int

datatype MemoryEventType = STORE | RETRIEVE | UPDATE | DELETE | CONSOLIDATE | EVICT

datatype MemoryType = EPISODIC | SEMANTIC | PROCEDURAL | WORKING | ARCHIVAL

datatype StorageTier =
  MAIN_CONTEXT | EXTERNAL_CONTEXT | VECTOR_STORE | GRAPH_STORE | TEMPORAL_STORE

text \<open>
  Values that may sit under a free-form metadata key or in a query's \<open>filters\<close>.
  \<open>JObject\<close> stands for any array, \<open>Date\<close> or other object: the code only ever compares
  such values with \<open>!==\<close>, that is by reference.
\<close>

datatype jsval = JUndefined | JNull | JBool bool | JNum real | JStr string | JObject

record MemoryContext =
  version :: string
  sessionId :: string
  memoryId :: string
  flags :: string
  state :: "(string \<times> string) list"
  timestamp_x :: Date
  userId :: "string option"
  agentId :: "string option"

record MemoryContent =
  text_c :: string
  keywords_c :: "string list option"
  tags_c :: "string list option"

text \<open>
  \<open>MemoryMetadata\<close> has eight declared properties and an index signature
  \<open>[key: string]: any\<close>; the other keys of a metadata object are kept in \<open>extra\<close>.
\<close>

record MemoryMetadata =
  source :: string
  confidence :: real
  importance :: real
  accessCount :: int
  lastAccessed :: Date
  created :: Date
  updated :: Date
  storageTier :: StorageTier
  extra :: "(string \<times> jsval) list"

text \<open>
  Metadata objects are the only objects the code mutates in place, and the spread
  copies \<open>{ ...event }\<close> share them.  They live in a heap; an event holds the address of
  its metadata object.  Every other part of an event is an immutable value.
\<close>

type_synonym addr = nat
type_synonym heap = "addr \<Rightarrow> MemoryMetadata"

text \<open>\<open>score_e\<close> is the \<open>_score\<close> property that \<open>searchEvents\<close> adds to its results.\<close>

record MemoryEvent =
  id_e :: string
  type_e :: MemoryEventType
  memoryType :: MemoryType
  context_e :: MemoryContext
  content :: MemoryContent
  metadata :: addr
  timestamp :: Date
  ttl :: "int option"
  score_e :: "real option"

record TimeRange =
  start_t :: "Date option"
  end_t :: "Date option"

record MemoryQuery =
  id_q :: "string option"
  query :: string
  memoryTypes :: "MemoryType list option"
  storageTiers :: "StorageTier list option"
  timeRange :: "TimeRange option"
  limit :: "int option"
  offset :: "int option"
  threshold :: "real option"
  filters :: "(string \<times> jsval) list option"

record MemorySearchResult =
  memories :: "MemoryEvent list"
  totalCount :: nat
  query_r :: MemoryQuery

datatype error =
  ProtocolNotInitialized
  | SessionNotFound string
  | BackendAlreadyInitialized
  | BackendNotInitialized
  | EventNotFound string

definition DEFAULT_SIMILARITY_THRESHOLD :: real where
  "DEFAULT_SIMILARITY_THRESHOLD = 0.7"

definition DEFAULT_SEARCH_LIMIT :: int where
  "DEFAULT_SEARCH_LIMIT = 10"

definition DEFAULT_TTL :: int where
  "DEFAULT_TTL = 86400"

section \<open>JavaScript primitives used by the code\<close>

text \<open>\<open>x || d\<close> on an optional number: \<open>undefined\<close> and \<open>0\<close> are both falsy.\<close>

definition or_default :: "'a::zero option \<Rightarrow> 'a \<Rightarrow> 'a" where
  "or_default x d = (case x of None \<Rightarrow> d | Some v \<Rightarrow> if v = 0 then d else v)"

text \<open>\<open>String.prototype.toLowerCase\<close> on code units 0..255 (ASCII and Latin-1 capitals).\<close>

definition lower_char :: "char \<Rightarrow> char" where
  "lower_char c =
     (let n = (of_char c :: nat)
      in if (65 \<le> n \<and> n \<le> 90) \<or> (192 \<le> n \<and> n \<le> 214) \<or> (216 \<le> n \<and> n \<le> 222)
         then char_of (n + 32) else c)"

definition toLowerCase :: "string \<Rightarrow> string" where
  "toLowerCase s = map lower_char s"

fun startsWith :: "string \<Rightarrow> string \<Rightarrow> bool" where
  "startsWith s [] = True"
| "startsWith [] (q # qs) = False"
| "startsWith (c # cs) (q # qs) = (c = q \<and> startsWith cs qs)"

text \<open>\<open>s.includes(q)\<close>: \<open>q\<close> occurs in \<open>s\<close> as a contiguous substring.\<close>

fun str_includes :: "string \<Rightarrow> string \<Rightarrow> bool" where
  "str_includes [] q = (q = [])"
| "str_includes (c # cs) q = (startsWith (c # cs) q \<or> str_includes cs q)"

section \<open>InMemoryBackend\<close>

text \<open>
  \<open>events\<close> is a JavaScript \<open>Map\<close>: it iterates in insertion order, \<open>set\<close> on a key
  that is present keeps the key's position, \<open>set\<close> on a new key appends.
\<close>

record InMemoryBackend =
  events :: "(string \<times> MemoryEvent) list"
  initialized :: bool

fun Map_get :: "(string \<times> 'v) list \<Rightarrow> string \<Rightarrow> 'v option" where
  "Map_get [] k = None"
| "Map_get ((k', v) # m) k = (if k' = k then Some v else Map_get m k)"

fun Map_set :: "(string \<times> 'v) list \<Rightarrow> string \<Rightarrow> 'v \<Rightarrow> (string \<times> 'v) list" where
  "Map_set [] k v = [(k, v)]"
| "Map_set ((k', v') # m) k v = (if k' = k then (k, v) # m else (k', v') # Map_set m k v)"


definition Map_values :: "(string \<times> 'v) list \<Rightarrow> 'v list" where
  "Map_values m = map snd m"

subsection \<open>searchEvents\<close>

text \<open>The score of one event: the body of the loop of \<open>searchEvents\<close> up to the threshold test.\<close>

definition event_score :: "string \<Rightarrow> MemoryEvent \<Rightarrow> real" where
  "event_score queryLower event =
     (let score = 0;
          score = (if str_includes (toLowerCase (text_c (content event))) queryLower
                   then score + 0.8 else score);
          score = (case keywords_c (content event) of
                     None \<Rightarrow> score
                   | Some ks \<Rightarrow>
                       fold (\<lambda>keyword s. if str_includes (toLowerCase keyword) queryLower
                                          then s + 0.6 else s) ks score);
          score = (case tags_c (content event) of
                     None \<Rightarrow> score
                   | Some ts \<Rightarrow>
                       fold (\<lambda>tag s. if str_includes (toLowerCase tag) queryLower
                                      then s + 0.7 else s) ts score)
      in score)"

definition searchEvents :: "MemoryQuery \<Rightarrow> InMemoryBackend \<Rightarrow> MemoryEvent list" where
  "searchEvents q b =
     (let queryLower = toLowerCase (query q)
      in concat (map (\<lambda>event.
           if event_score queryLower event \<ge> or_default (threshold q) 0.5
           then [event\<lparr>score_e := Some (event_score queryLower event)\<rparr>] else [])
         (Map_values (events b))))"

subsection \<open>applyFilters\<close>

definition tier_name :: "StorageTier \<Rightarrow> string" where
  "tier_name t = (case t of
       MAIN_CONTEXT \<Rightarrow> ''main_context''
     | EXTERNAL_CONTEXT \<Rightarrow> ''external_context''
     | VECTOR_STORE \<Rightarrow> ''vector_store''
     | GRAPH_STORE \<Rightarrow> ''graph_store''
     | TEMPORAL_STORE \<Rightarrow> ''temporal_store'')"

text \<open>
  \<open>metadata[key]\<close>: a declared property, or else a free-form key.  The three dates are
  \<open>Date\<close> objects.  Properties inherited from \<open>Object.prototype\<close> are not modelled.
\<close>

definition metadata_get :: "MemoryMetadata \<Rightarrow> string \<Rightarrow> jsval" where
  "metadata_get m key =
     (if key = ''source'' then JStr (source m)
      else if key = ''confidence'' then JNum (confidence m)
      else if key = ''importance'' then JNum (importance m)
      else if key = ''accessCount'' then JNum (real_of_int (accessCount m))
      else if key = ''lastAccessed'' then JObject
      else if key = ''created'' then JObject
      else if key = ''updated'' then JObject
      else if key = ''storageTier'' then JStr (tier_name (storageTier m))
      else (case Map_get (extra m) key of None \<Rightarrow> JUndefined | Some v \<Rightarrow> v))"

text \<open>
  \<open>a === b\<close> between a metadata value and a filter value.  Two objects are equal only
  when they are the same object, which a filter value never is.
\<close>

definition strict_eq :: "jsval \<Rightarrow> jsval \<Rightarrow> bool" where
  "strict_eq a b = (a = b \<and> a \<noteq> JObject)"

definition in_timeRange :: "TimeRange \<Rightarrow> Date \<Rightarrow> bool" where
  "in_timeRange r eventTime =
     (if (case start_t r of Some s \<Rightarrow> eventTime < s | None \<Rightarrow> False) then False
      else if (case end_t r of Some e \<Rightarrow> eventTime > e | None \<Rightarrow> False) then False
      else True)"

definition applyFilters :: "MemoryEvent list \<Rightarrow> MemoryQuery \<Rightarrow> heap \<Rightarrow> MemoryEvent list" where
  "applyFilters evs q h =
     (let filtered = evs;
          filtered = (case memoryTypes q of
                        Some ts \<Rightarrow>
                          if length ts > 0
                          then filter (\<lambda>event. memoryType event \<in> set ts) filtered
                          else filtered
                      | None \<Rightarrow> filtered);
          filtered = (case storageTiers q of
                        Some ts \<Rightarrow>
                          if length ts > 0
                          then filter (\<lambda>event. storageTier (h (metadata event)) \<in> set ts) filtered
                          else filtered
                      | None \<Rightarrow> filtered);
          filtered = (case timeRange q of
                        Some r \<Rightarrow> filter (\<lambda>event. in_timeRange r (timestamp event)) filtered
                      | None \<Rightarrow> filtered);
          filtered = (case filters q of
                        Some fs \<Rightarrow>
                          filter (\<lambda>event.
                            list_all (\<lambda>(key, v). strict_eq (metadata_get (h (metadata event)) key) v) fs)
                            filtered
                      | None \<Rightarrow> filtered)
      in filtered)"

subsection \<open>sortResults\<close>

text \<open>The comparator passed to \<open>events.sort\<close>; a negative result puts \<open>a\<close> first.\<close>

definition compare_events :: "heap \<Rightarrow> MemoryEvent \<Rightarrow> MemoryEvent \<Rightarrow> real" where
  "compare_events h a b =
     (let scoreA = or_default (score_e a) 0;
          scoreB = or_default (score_e b) 0
      in if scoreA \<noteq> scoreB then scoreB - scoreA
         else
           let importanceA = importance (h (metadata a));
               importanceB = importance (h (metadata b))
           in if importanceA \<noteq> importanceB then importanceB - importanceA
              else real_of_int (timestamp b - timestamp a))"

text \<open>
  \<open>Array.prototype.sort\<close> is stable: elements that compare equal keep their order.
  It is modelled as the stable insertion sort for the comparator.
\<close>

fun insert_sorted :: "('a \<Rightarrow> 'a \<Rightarrow> real) \<Rightarrow> 'a \<Rightarrow> 'a list \<Rightarrow> 'a list" where
  "insert_sorted cmp x [] = [x]"
| "insert_sorted cmp x (y # ys) =
     (if cmp x y \<le> 0 then x # y # ys else y # insert_sorted cmp x ys)"

definition Array_sort :: "('a \<Rightarrow> 'a \<Rightarrow> real) \<Rightarrow> 'a list \<Rightarrow> 'a list" where
  "Array_sort cmp xs = foldr (insert_sorted cmp) xs []"

definition sortResults :: "MemoryEvent list \<Rightarrow> MemoryQuery \<Rightarrow> heap \<Rightarrow> MemoryEvent list" where
  "sortResults evs q h = Array_sort (compare_events h) evs"

subsection \<open>store, retrieve, update, delete\<close>

text \<open>\<open>xs.slice(start, end)\<close>: a negative index counts from the end of the array.\<close>

definition Array_slice :: "'a list \<Rightarrow> int \<Rightarrow> int \<Rightarrow> 'a list" where
  "Array_slice xs start fin =
     (let len = int (length xs);
          k = (if start < 0 then max (len + start) 0 else min start len);
          final = (if fin < 0 then max (len + fin) 0 else min fin len)
      in take (nat (max (final - k) 0)) (drop (nat k) xs))"

text \<open>
  The clock is a parameter: \<open>now\<close> is the value of \<open>new Date()\<close> during the call.

  \<open>store\<close> puts a shallow copy of the event into the map; the copy has the same
  metadata object as the caller's event, and it is this object that is then touched.
  The \<open>get\<close> that follows the \<open>set\<close> always finds the copy.
\<close>

definition touch :: "Date \<Rightarrow> addr \<Rightarrow> heap \<Rightarrow> heap" where
  "touch now a h =
     (let h = h(a := (h a)\<lparr>lastAccessed := now\<rparr>);
          h = h(a := (h a)\<lparr>accessCount := accessCount (h a) + 1\<rparr>)
      in h)"

definition InMemoryBackend_store ::
  "Date \<Rightarrow> MemoryEvent \<Rightarrow> InMemoryBackend \<Rightarrow> heap \<Rightarrow> error + (InMemoryBackend \<times> heap)" where
  "InMemoryBackend_store now event b h =
     (if \<not> initialized b then Inl BackendNotInitialized
      else
        let b = b\<lparr>events := Map_set (events b) (id_e event) event\<rparr>
        in (case Map_get (events b) (id_e event) of
              Some stored \<Rightarrow> Inr (b, touch now (metadata stored) h)
            | None \<Rightarrow> Inr (b, h)))"

text \<open>The access-tracking loop body of \<open>retrieve\<close>, for one event of the page.\<close>

definition track_access :: "Date \<Rightarrow> InMemoryBackend \<Rightarrow> MemoryEvent \<Rightarrow> heap \<Rightarrow> heap" where
  "track_access now b event h =
     (case Map_get (events b) (id_e event) of
        Some stored \<Rightarrow> touch now (metadata stored) h
      | None \<Rightarrow> h)"

text \<open>
  \<open>retrieve\<close> leaves the map itself as it is and changes metadata objects only, so it
  returns the search result and the new heap.  \<open>searchTime\<close> is left out.
\<close>

definition InMemoryBackend_retrieve ::
  "Date \<Rightarrow> MemoryQuery \<Rightarrow> InMemoryBackend \<Rightarrow> heap \<Rightarrow> error + (MemorySearchResult \<times> heap)" where
  "InMemoryBackend_retrieve now q b h =
     (if \<not> initialized b then Inl BackendNotInitialized
      else
        let results =
              (case id_q q of
                 Some i \<Rightarrow>
                   if i \<noteq> []
                   then (case Map_get (events b) i of Some event \<Rightarrow> [event] | None \<Rightarrow> [])
                   else searchEvents q b
               | None \<Rightarrow> searchEvents q b);
            results = applyFilters results q h;
            results = sortResults results q h;
            offset = or_default (offset q) 0;
            limit = or_default (limit q) DEFAULT_SEARCH_LIMIT;
            paginatedResults = Array_slice results offset (offset + limit);
            h = fold (track_access now b) paginatedResults h
        in Inr (\<lparr>memories = paginatedResults, totalCount = length results, query_r = q\<rparr>, h))"

text \<open>\<open>Partial<MemoryEvent>\<close>: every property may be absent.\<close>

record PartialMemoryEvent =
  u_id :: "string option"
  u_type :: "MemoryEventType option"
  u_memoryType :: "MemoryType option"
  u_context :: "MemoryContext option"
  u_content :: "MemoryContent option"
  u_metadata :: "addr option"
  u_timestamp :: "Date option"
  u_ttl :: "int option"

text \<open>\<open>{ ...event, ...updates }\<close>: a property of \<open>updates\<close> replaces that of \<open>event\<close>.\<close>

definition spread_updates :: "MemoryEvent \<Rightarrow> PartialMemoryEvent \<Rightarrow> MemoryEvent" where
  "spread_updates event updates =
     event\<lparr>id_e := (case u_id updates of Some v \<Rightarrow> v | None \<Rightarrow> id_e event),
           type_e := (case u_type updates of Some v \<Rightarrow> v | None \<Rightarrow> type_e event),
           memoryType := (case u_memoryType updates of Some v \<Rightarrow> v | None \<Rightarrow> memoryType event),
           context_e := (case u_context updates of Some v \<Rightarrow> v | None \<Rightarrow> context_e event),
           content := (case u_content updates of Some v \<Rightarrow> v | None \<Rightarrow> content event),
           metadata := (case u_metadata updates of Some v \<Rightarrow> v | None \<Rightarrow> metadata event),
           timestamp := (case u_timestamp updates of Some v \<Rightarrow> v | None \<Rightarrow> timestamp event),
           ttl := (case u_ttl updates of Some v \<Rightarrow> Some v | None \<Rightarrow> ttl event)\<rparr>"

definition InMemoryBackend_update ::
  "Date \<Rightarrow> string \<Rightarrow> PartialMemoryEvent \<Rightarrow> InMemoryBackend \<Rightarrow> heap
     \<Rightarrow> error + (InMemoryBackend \<times> heap)" where
  "InMemoryBackend_update now i updates b h =
     (if \<not> initialized b then Inl BackendNotInitialized
      else (case Map_get (events b) i of
              None \<Rightarrow> Inl (EventNotFound i)
            | Some event \<Rightarrow>
                let updatedEvent = spread_updates event updates;
                    h = h(metadata updatedEvent := (h (metadata updatedEvent))\<lparr>updated := now\<rparr>)
                in Inr (b\<lparr>events := Map_set (events b) i updatedEvent\<rparr>, h)))"


subsection \<open>hashContent and consolidate\<close>





section \<open>MemoryProtocol (core/memoryProtocol.ts)\<close>

text \<open>
  \<open>storageBackends\<close> and \<open>sessions\<close> are \<open>Map\<close>s.  The one implementation of
  \<open>StorageBackend\<close> in the repository is \<open>InMemoryBackend\<close>.
\<close>

record MemoryProtocol =
  storageBackends :: "(string \<times> InMemoryBackend) list"
  sessions :: "(string \<times> MemoryContext) list"
  initialized_p :: bool

text \<open>
  \<open>Partial<MemoryMetadata>\<close>, the optional last argument of \<open>store\<close>.  The callers
  pass \<open>tags\<close> under it, which the index signature of \<open>MemoryMetadata\<close> permits.
\<close>

record PartialMemoryMetadata =
  p_source :: "string option"
  p_confidence :: "real option"
  p_importance :: "real option"
  p_accessCount :: "int option"
  p_lastAccessed :: "Date option"
  p_created :: "Date option"
  p_updated :: "Date option"
  p_storageTier :: "StorageTier option"
  p_tags :: "string list option"
  p_extra :: "(string \<times> jsval) list"

subsection \<open>extractKeywords\<close>

text \<open>The code units below 256 that \<open>\s\<close> matches.\<close>

definition is_space :: "char \<Rightarrow> bool" where
  "is_space c = ((of_char c :: nat) \<in> {9, 10, 11, 12, 13, 32, 160})"

text \<open>
  \<open>s.split(/\s+/)\<close>: \<open>acc\<close> is the piece being read, reversed; \<open>in_sep\<close> says
  that the previous code unit belonged to a separator.
\<close>

fun split_spaces :: "bool \<Rightarrow> string \<Rightarrow> string \<Rightarrow> string list" where
  "split_spaces in_sep acc [] = [rev acc]"
| "split_spaces in_sep acc (c # cs) =
     (if is_space c
      then (if in_sep then split_spaces True acc cs
            else rev acc # split_spaces True [] cs)
      else split_spaces False (c # acc) cs)"

definition extractKeywords :: "string \<Rightarrow> string list" where
  "extractKeywords content_s =
     take 10 (filter (\<lambda>word. length word > 3)
                (split_spaces False [] (toLowerCase content_s)))"

subsection \<open>store\<close>

text \<open>\<open>{ source: 'user', ..., ...metadata }\<close>: the defaults, then the caller's keys.\<close>

definition build_metadata :: "Date \<Rightarrow> PartialMemoryMetadata option \<Rightarrow> MemoryMetadata" where
  "build_metadata now md =
     (case md of
        None \<Rightarrow>
          \<lparr>source = ''user'', confidence = 1.0, importance = 0.5, accessCount = 0,
           lastAccessed = now, created = now, updated = now,
           storageTier = MAIN_CONTEXT, extra = []\<rparr>
      | Some m \<Rightarrow>
          \<lparr>source = (case p_source m of Some v \<Rightarrow> v | None \<Rightarrow> ''user''),
           confidence = (case p_confidence m of Some v \<Rightarrow> v | None \<Rightarrow> 1.0),
           importance = (case p_importance m of Some v \<Rightarrow> v | None \<Rightarrow> 0.5),
           accessCount = (case p_accessCount m of Some v \<Rightarrow> v | None \<Rightarrow> 0),
           lastAccessed = (case p_lastAccessed m of Some v \<Rightarrow> v | None \<Rightarrow> now),
           created = (case p_created m of Some v \<Rightarrow> v | None \<Rightarrow> now),
           updated = (case p_updated m of Some v \<Rightarrow> v | None \<Rightarrow> now),
           storageTier = (case p_storageTier m of Some v \<Rightarrow> v | None \<Rightarrow> MAIN_CONTEXT),
           extra = (case p_tags m of Some ts \<Rightarrow> [(''tags'', JObject)] | None \<Rightarrow> []) @ p_extra m\<rparr>)"

text \<open>
  \<open>storeEvent\<close>: \<open>getRelevantBackends\<close> returns every backend, and the loop stores the
  same event object in each.  An exception leaves the loop; the backends already
  written stay written, so the state is returned beside the error.
\<close>

fun storeEvent ::
  "Date \<Rightarrow> MemoryEvent \<Rightarrow> (string \<times> InMemoryBackend) list \<Rightarrow> heap
     \<Rightarrow> error option \<times> (string \<times> InMemoryBackend) list \<times> heap" where
  "storeEvent now event [] h = (None, [], h)"
| "storeEvent now event ((name, b) # bs) h =
     (case InMemoryBackend_store now event b h of
        Inl e \<Rightarrow> (Some e, (name, b) # bs, h)
      | Inr (b', h') \<Rightarrow>
          (case storeEvent now event bs h' of
             (r, bs', h'') \<Rightarrow> (r, (name, b') # bs', h'')))"

text \<open>
  The environment supplies the fresh identifier (\<open>uuidv4()\<close>), the time and the
  address \<open>a\<close> of the new metadata object.
\<close>

definition MemoryProtocol_store ::
  "string \<Rightarrow> Date \<Rightarrow> addr \<Rightarrow> string \<Rightarrow> MemoryType \<Rightarrow> string \<Rightarrow> PartialMemoryMetadata option
     \<Rightarrow> MemoryProtocol \<Rightarrow> heap \<Rightarrow> (error + string) \<times> MemoryProtocol \<times> heap" where
  "MemoryProtocol_store eventId now a content_s type sid md p h =
     (if \<not> initialized_p p then (Inl ProtocolNotInitialized, p, h)
      else (case Map_get (sessions p) sid of
              None \<Rightarrow> (Inl (SessionNotFound sid), p, h)
            | Some ctx \<Rightarrow>
                let memoryContent =
                      \<lparr>text_c = content_s,
                       keywords_c = Some (extractKeywords content_s),
                       tags_c = Some (case md of
                                        Some m \<Rightarrow> (case p_tags m of Some ts \<Rightarrow> ts | None \<Rightarrow> [])
                                      | None \<Rightarrow> [])\<rparr>;
                    h = h(a := build_metadata now md);
                    event =
                      \<lparr>id_e = eventId, type_e = STORE, memoryType = type,
                       context_e = ctx\<lparr>memoryId := eventId\<rparr>,
                       content = memoryContent, metadata = a, timestamp = now,
                       ttl = Some DEFAULT_TTL, score_e = None\<rparr>
                in (case storeEvent now event (storageBackends p) h of
                      (Some e, bs, h') \<Rightarrow> (Inl e, p\<lparr>storageBackends := bs\<rparr>, h')
                    | (None, bs, h') \<Rightarrow> (Inr eventId, p\<lparr>storageBackends := bs\<rparr>, h'))))"

subsection \<open>update and delete\<close>





section \<open>The scoring rule in the words of the specification\<close>



section \<open>The sorted, filtered candidate sequence\<close>

text \<open>The candidates of \<open>retrieve\<close>: the record of an exact-id lookup, or the search results.\<close>

definition candidates :: "MemoryQuery \<Rightarrow> InMemoryBackend \<Rightarrow> MemoryEvent list" where
  "candidates q b =
     (case id_q q of
        Some i \<Rightarrow>
          if i \<noteq> []
          then (case Map_get (events b) i of Some event \<Rightarrow> [event] | None \<Rightarrow> [])
          else searchEvents q b
      | None \<Rightarrow> searchEvents q b)"

text \<open>The candidates, filtered and then sorted: what \<open>retrieve\<close> paginates.\<close>

definition ranked :: "MemoryQuery \<Rightarrow> InMemoryBackend \<Rightarrow> heap \<Rightarrow> MemoryEvent list" where
  "ranked q b h = sortResults (applyFilters (candidates q b) q h) q h"

section \<open>Predicates used in the statements\<close>

text \<open>What the four filters of \<open>applyFilters\<close> ask of one event.\<close>

definition passes_filters :: "MemoryQuery \<Rightarrow> heap \<Rightarrow> MemoryEvent \<Rightarrow> bool" where
  "passes_filters q h event =
     ((case memoryTypes q of
         Some ts \<Rightarrow> if length ts > 0 then memoryType event \<in> set ts else True
       | None \<Rightarrow> True)
      \<and> (case storageTiers q of
           Some ts \<Rightarrow> if length ts > 0 then storageTier (h (metadata event)) \<in> set ts else True
         | None \<Rightarrow> True)
      \<and> (case timeRange q of Some r \<Rightarrow> in_timeRange r (timestamp event) | None \<Rightarrow> True)
      \<and> (case filters q of
           Some fs \<Rightarrow>
             list_all (\<lambda>(key, v). strict_eq (metadata_get (h (metadata event)) key) v) fs
         | None \<Rightarrow> True))"

text \<open>
  The shape that \<open>store\<close> gives the map: the keys are distinct, as in every \<open>Map\<close>;
  every record is stored under its own identifier; no two records share a metadata
  object.
\<close>

definition well_formed :: "InMemoryBackend \<Rightarrow> bool" where
  "well_formed b =
     (distinct (map fst (events b))
      \<and> list_all (\<lambda>(k, e). id_e e = k) (events b)
      \<and> distinct (map (\<lambda>(k, e). metadata e) (events b)))"



section \<open>Paging through a result\<close>


section \<open>Concrete inputs\<close>

definition ctx0 :: MemoryContext where
  "ctx0 = \<lparr>version = ''1.0.0'', sessionId = ''s1'', memoryId = ''c0'', flags = [],
           state = [], timestamp_x = 0, userId = None, agentId = None\<rparr>"

definition meta0 :: MemoryMetadata where
  "meta0 = \<lparr>source = ''user'', confidence = 1, importance = 0.5, accessCount = 0,
            lastAccessed = 0, created = 0, updated = 0, storageTier = MAIN_CONTEXT,
            extra = []\<rparr>"

definition query0 :: MemoryQuery where
  "query0 = \<lparr>id_q = None, query = [], memoryTypes = None, storageTiers = None,
             timeRange = None, limit = None, offset = None, threshold = None,
             filters = None\<rparr>"

text \<open>An event with the given identifier, text, tags and metadata address.\<close>

definition mk_event :: "string \<Rightarrow> string \<Rightarrow> string list \<Rightarrow> addr \<Rightarrow> MemoryEvent" where
  "mk_event i t ts a =
     \<lparr>id_e = i, type_e = STORE, memoryType = SEMANTIC, context_e = ctx0,
      content = \<lparr>text_c = t, keywords_c = Some (extractKeywords t), tags_c = Some ts\<rparr>,
      metadata = a, timestamp = 0, ttl = Some DEFAULT_TTL, score_e = None\<rparr>"

definition heap0 :: heap where
  "heap0 = (\<lambda>a. meta0)"





text \<open>Observations on results, used to state what a call returned.\<close>

definition memories_of :: "error + (MemorySearchResult \<times> heap) \<Rightarrow> MemoryEvent list" where
  "memories_of r = (case r of Inr (res, h) \<Rightarrow> memories res | Inl e \<Rightarrow> [])"

definition id_scores :: "error + (MemorySearchResult \<times> heap) \<Rightarrow> (string \<times> real option) list" where
  "id_scores r = map (\<lambda>e. (id_e e, score_e e)) (memories_of r)"

text \<open>The access count of the record stored under \<open>i\<close>, in each backend of the protocol.\<close>

definition stored_accessCounts ::
  "string \<Rightarrow> (error + string) \<times> MemoryProtocol \<times> heap \<Rightarrow> int option list" where
  "stored_accessCounts i r =
     (case r of (res, p, h) \<Rightarrow>
        map (\<lambda>(name, b). map_option (\<lambda>e. accessCount (h (metadata e))) (Map_get (events b) i))
          (storageBackends p))"

definition stored_ttls ::
  "string \<Rightarrow> (error + string) \<times> MemoryProtocol \<times> heap \<Rightarrow> int option option list" where
  "stored_ttls i r =
     (case r of (res, p, h) \<Rightarrow>
        map (\<lambda>(name, b). map_option ttl (Map_get (events b) i)) (storageBackends p))"

text \<open>The caller of \<open>store\<close> leaves \<open>accessCount\<close> to the default.\<close>

definition default_accessCount :: "PartialMemoryMetadata option \<Rightarrow> bool" where
  "default_accessCount md = (case md of None \<Rightarrow> True | Some m \<Rightarrow> p_accessCount m = None)"

definition empty_backend :: InMemoryBackend where
  "empty_backend = \<lparr>events = [], initialized = True\<rparr>"

text \<open>A protocol with one backend, as the usage example sets it up, and one with two.\<close>

definition p1 :: MemoryProtocol where
  "p1 = \<lparr>storageBackends = [(''in-memory'', empty_backend)],
         sessions = [(''s1'', ctx0)], initialized_p = True\<rparr>"

definition p2 :: MemoryProtocol where
  "p2 = \<lparr>storageBackends = [(''in-memory'', empty_backend), (''archive'', empty_backend)],
         sessions = [(''s1'', ctx0)], initialized_p = True\<rparr>"

definition c4_md :: PartialMemoryMetadata where
  "c4_md = \<lparr>p_source = None, p_confidence = None, p_importance = Some 0.8,
            p_accessCount = None, p_lastAccessed = None, p_created = None,
            p_updated = None, p_storageTier = None,
            p_tags = Some [''preference'', ''programming''], p_extra = []\<rparr>"

definition c4_text :: string where
  "c4_text = ''The user prefers TypeScript over JavaScript''"

text \<open>The scenario's store call, through the protocol, on one backend and on two.\<close>

definition c4_stored :: "(error + string) \<times> MemoryProtocol \<times> heap" where
  "c4_stored = MemoryProtocol_store ''m1'' 1000 0 c4_text SEMANTIC ''s1'' (Some c4_md) p1 heap0"

definition c9_stored2 :: "(error + string) \<times> MemoryProtocol \<times> heap" where
  "c9_stored2 = MemoryProtocol_store ''m1'' 1000 0 c4_text SEMANTIC ''s1'' (Some c4_md) p2 heap0"

text \<open>A retrieve on the backend named \<open>in-memory\<close> after the scenario's store call.\<close>

definition c4_retrieve :: "MemoryQuery \<Rightarrow> (error + (MemorySearchResult \<times> heap)) option" where
  "c4_retrieve q =
     (case c4_stored of (res, p, h) \<Rightarrow>
        map_option (\<lambda>b. InMemoryBackend_retrieve 2000 q b h)
          (Map_get (storageBackends p) ''in-memory''))"

definition c4_query :: MemoryQuery where
  "c4_query = query0\<lparr>query := ''programming preferences''\<rparr>"

definition c4_query_tag :: MemoryQuery where
  "c4_query_tag = query0\<lparr>query := ''programming''\<rparr>"

text \<open>The record that the scenario's store call leaves in the backend.\<close>

definition c4_event :: MemoryEvent where
  "c4_event =
     (mk_event ''m1'' c4_text [''preference'', ''programming''] 0)
       \<lparr>context_e := ctx0\<lparr>memoryId := ''m1''\<rparr>, timestamp := 1000\<rparr>"

definition c4_backend_after :: InMemoryBackend where
  "c4_backend_after = \<lparr>events = [(''m1'', c4_event)], initialized = True\<rparr>"

text \<open>C5: a stored record whose metadata has a free-form key, and an update that brings
  a complete metadata object of its own without that key.\<close>

definition c5_event :: MemoryEvent where
  "c5_event = mk_event ''m1'' ''Dark mode'' [''ui''] 0"

definition c5_backend :: InMemoryBackend where
  "c5_backend = \<lparr>events = [(''m1'', c5_event)], initialized = True\<rparr>"

definition c5_heap :: heap where
  "c5_heap = heap0(0 := meta0\<lparr>accessCount := 3, extra := [(''project'', JStr ''apollo'')]\<rparr>,
                  1 := meta0\<lparr>importance := 0.9\<rparr>)"

definition no_updates :: PartialMemoryEvent where
  "no_updates = \<lparr>u_id = None, u_type = None, u_memoryType = None, u_context = None,
                 u_content = None, u_metadata = None, u_timestamp = None, u_ttl = None\<rparr>"

definition c5_updates :: PartialMemoryEvent where
  "c5_updates = no_updates\<lparr>u_metadata := Some 1\<rparr>"

text \<open>\<open>metadata[key]\<close> of the record stored under \<open>i\<close>, in a state and after an update.\<close>

definition metadata_get_of :: "InMemoryBackend \<Rightarrow> heap \<Rightarrow> string \<Rightarrow> string \<Rightarrow> jsval option" where
  "metadata_get_of b h i key =
     map_option (\<lambda>e. metadata_get (h (metadata e)) key) (Map_get (events b) i)"

definition stored_metadata_get ::
  "string \<Rightarrow> string \<Rightarrow> error + (InMemoryBackend \<times> heap) \<Rightarrow> jsval option" where
  "stored_metadata_get i key r =
     (case r of Inr (b, h) \<Rightarrow> metadata_get_of b h i key | Inl e \<Rightarrow> None)"

text \<open>C6: two backends, of which the first holds the record \<open>m1\<close> and the second does not.\<close>

definition holds :: "string \<Rightarrow> InMemoryBackend \<Rightarrow> bool" where
  "holds i b = (Map_get (events b) i \<noteq> None)"



definition totalCount_of :: "error + (MemorySearchResult \<times> heap) \<Rightarrow> nat" where
  "totalCount_of r = (case r of Inr (res, h) \<Rightarrow> totalCount res | Inl e \<Rightarrow> 0)"

definition heap_of :: "heap \<Rightarrow> error + (MemorySearchResult \<times> heap) \<Rightarrow> heap" where
  "heap_of h r = (case r of Inr (res, h') \<Rightarrow> h' | Inl e \<Rightarrow> h)"

text \<open>Three records that all match the query \<open>note\<close>, with importance 0.5, 0.9 and 0.7.\<close>

definition three_backend :: InMemoryBackend where
  "three_backend =
     \<lparr>events = [(''m1'', mk_event ''m1'' ''note a'' [] 0),
                (''m2'', mk_event ''m2'' ''note b'' [] 1),
                (''m3'', mk_event ''m3'' ''note c'' [] 2)],
      initialized = True\<rparr>"

definition three_heap :: heap where
  "three_heap = heap0(0 := meta0\<lparr>accessCount := 1\<rparr>,
                     1 := meta0\<lparr>accessCount := 1, importance := 0.9\<rparr>,
                     2 := meta0\<lparr>accessCount := 1, importance := 0.7\<rparr>)"

definition c7_query :: MemoryQuery where
  "c7_query = query0\<lparr>query := ''note'', limit := Some 5, offset := Some 0\<rparr>"

definition c7_query_zero :: MemoryQuery where
  "c7_query_zero = query0\<lparr>query := ''note'', limit := Some 0, offset := Some 0\<rparr>"




text \<open>The access counts read from the records that a \<open>retrieve\<close> returned, after the call.\<close>

definition returned_accessCounts :: "heap \<Rightarrow> error + (MemorySearchResult \<times> heap) \<Rightarrow> int list" where
  "returned_accessCounts h r = map (\<lambda>e. accessCount (heap_of h r (metadata e))) (memories_of r)"

definition c3_query :: MemoryQuery where
  "c3_query = query0\<lparr>query := ''note'', limit := Some 1\<rparr>"



section \<open>Verification\<close>

subsection \<open>Scoring and threshold (C1)\<close>



lemma concat_map_if:
  "concat (map (\<lambda>x. if P x then [f x] else []) xs) = map f (filter P xs)"
  by (induction xs) simp_all




subsection \<open>The programming-preferences scenario (C4)\<close>

text \<open>
  C4, as the claim has it: the record is stored with the tags \<open>preference\<close> and
  \<open>programming\<close>, and a retrieve with the query \<open>programming preferences\<close> and no
  threshold must return it.  The tag would have to contain the whole query; the
  record's score is 0 and the result is empty.
\<close>

theorem C4_counterexample:
  "fst c4_stored = Inr ''m1''
   \<and> threshold c4_query = None
   \<and> map_option id_scores (c4_retrieve c4_query) = Some []"
  by code_simp

text \<open>
  C4, amended: after the same store call, a retrieve with the query \<open>programming\<close>,
  which the tag \<open>programming\<close> contains, returns the record with score 0.7, both
  with the engine's default threshold 0.5 and with the protocol's default 0.7.
\<close>

theorem C4_tag_query:
  "fst c4_stored = Inr ''m1''
   \<and> map_option id_scores (c4_retrieve c4_query_tag) = Some [(''m1'', Some 0.7)]
   \<and> map_option id_scores
        (c4_retrieve (c4_query_tag\<lparr>threshold := Some DEFAULT_SIMILARITY_THRESHOLD\<rparr>))
      = Some [(''m1'', Some 0.7)]"
  by code_simp

subsection \<open>Facts about the map and about store\<close>

lemma Map_get_set_same: "Map_get (Map_set m k v) k = Some v"
  by (induction m) auto

lemma Map_get_set_other: "k' \<noteq> k \<Longrightarrow> Map_get (Map_set m k v) k' = Map_get m k'"
  by (induction m) auto

lemma store_Inr:
  "initialized b \<Longrightarrow>
     InMemoryBackend_store now ev b h =
       Inr (b\<lparr>events := Map_set (events b) (id_e ev) ev\<rparr>, touch now (metadata ev) h)"
  by (simp add: InMemoryBackend_store_def Map_get_set_same)

lemma store_Inl:
  "\<not> initialized b \<Longrightarrow> InMemoryBackend_store now ev b h = Inl BackendNotInitialized"
  by (simp add: InMemoryBackend_store_def)

lemma storeEvent_stored:
  "storeEvent now ev bs h = (None, bs', h') \<Longrightarrow> (name, b') \<in> set bs'
     \<Longrightarrow> Map_get (events b') (id_e ev) = Some ev"
proof (induction bs arbitrary: h bs' h')
  case Nil
  then show ?case by simp
next
  case (Cons nb bs)
  obtain n b where nb: "nb = (n, b)" by (cases nb)
  show ?case
  proof (cases "initialized b")
    case False
    with Cons.prems nb show ?thesis by (simp add: store_Inl)
  next
    case True
    obtain r bs2 h2 where rec: "storeEvent now ev bs (touch now (metadata ev) h) = (r, bs2, h2)"
      by (cases "storeEvent now ev bs (touch now (metadata ev) h)") auto
    from Cons.prems(1) nb True rec
    have r: "r = None" and bs': "bs' = (n, b\<lparr>events := Map_set (events b) (id_e ev) ev\<rparr>) # bs2"
      by (simp_all add: store_Inr)
    from Cons.prems(2) bs' consider "b' = b\<lparr>events := Map_set (events b) (id_e ev) ev\<rparr>"
      | "(name, b') \<in> set bs2" by auto
    then show ?thesis
    proof cases
      case 1
      then show ?thesis by (simp add: Map_get_set_same)
    next
      case 2
      with Cons.IH rec r show ?thesis by blast
    qed
  qed
qed

subsection \<open>The ttl of a record created by the protocol (C10)\<close>

text \<open>
  C10: whenever the protocol's \<open>store\<close> succeeds, whatever metadata the caller passes,
  the record it leaves in every backend under the returned identifier has
  \<open>ttl = 86400\<close> (\<open>DEFAULT_TTL\<close>); the ttl is never absent.
\<close>

theorem C10_ttl:
  assumes "MemoryProtocol_store eventId now a content_s type sid md p h = (Inr i, p', h')"
    and "(name, b) \<in> set (storageBackends p')"
  shows "i = eventId \<and> map_option ttl (Map_get (events b) i) = Some (Some 86400)"
proof -
  from assms(1) obtain ctx where ctx: "Map_get (sessions p) sid = Some ctx"
    and ini: "initialized_p p"
    by (auto simp: MemoryProtocol_store_def split: if_splits option.splits)
  define ev where "ev = \<lparr>id_e = eventId, type_e = STORE, memoryType = type,
      context_e = ctx\<lparr>memoryId := eventId\<rparr>,
      content = \<lparr>text_c = content_s, keywords_c = Some (extractKeywords content_s),
                 tags_c = Some (case md of
                                  Some m \<Rightarrow> (case p_tags m of Some ts \<Rightarrow> ts | None \<Rightarrow> [])
                                | None \<Rightarrow> [])\<rparr>,
      metadata = a, timestamp = now, ttl = Some DEFAULT_TTL, score_e = None\<rparr>"
  obtain r bs h2 where
    se: "storeEvent now ev (storageBackends p) (h(a := build_metadata now md)) = (r, bs, h2)"
    by (cases "storeEvent now ev (storageBackends p) (h(a := build_metadata now md))") auto
  from assms(1) ctx ini se have "r = None" and "i = eventId" and "storageBackends p' = bs"
    by (auto simp: MemoryProtocol_store_def Let_def ev_def split: option.splits)
  with se assms(2) have "Map_get (events b) (id_e ev) = Some ev"
    using storeEvent_stored by blast
  with \<open>i = eventId\<close> show ?thesis by (simp add: ev_def DEFAULT_TTL_def)
qed

theorem C10_ttl_witness:
  "fst c4_stored = Inr ''m1''
   \<and> storageBackends (fst (snd c4_stored)) = [(''in-memory'', c4_backend_after)]
   \<and> map_option ttl (Map_get (events c4_backend_after) ''m1'') = Some (Some 86400)"
proof -
  have 1: "fst c4_stored = Inr ''m1''" by code_simp
  have 2: "storageBackends (fst (snd c4_stored)) = [(''in-memory'', c4_backend_after)]"
    by code_simp
  have 3: "MemoryProtocol_store ''m1'' 1000 0 c4_text SEMANTIC ''s1'' (Some c4_md) p1 heap0
      = (Inr ''m1'', fst (snd c4_stored), snd (snd c4_stored))"
    using 1 by (simp add: c4_stored_def prod_eq_iff)
  have 4: "(''in-memory'', c4_backend_after) \<in> set (storageBackends (fst (snd c4_stored)))"
    using 2 by simp
  from C10_ttl [OF 3 4] 1 2 show ?thesis by simp
qed

subsection \<open>The access count after store (C9)\<close>

lemma touch_same:
  "touch now a h a = (h a)\<lparr>lastAccessed := now, accessCount := accessCount (h a) + 1\<rparr>"
  by (simp add: touch_def)

lemma touch_other: "x \<noteq> a \<Longrightarrow> touch now a h x = h x"
  by (simp add: touch_def)

lemma accessCount_build_metadata:
  "default_accessCount md \<Longrightarrow> accessCount (build_metadata now md) = 0"
  by (auto simp: default_accessCount_def build_metadata_def split: option.splits)

text \<open>
  C9, as the claim has it: a record created by the protocol's \<open>store\<close> with the default
  access count must have \<open>accessCount = 1\<close> in the backend right after the call.  With
  two backends registered, \<open>storeEvent\<close> stores the same event in both; the two copies
  share one metadata object, each \<open>store\<close> increments it, and the count is 2 in both.
\<close>

theorem C9_counterexample:
  "fst c9_stored2 = Inr ''m1''
   \<and> default_accessCount (Some c4_md)
   \<and> stored_accessCounts ''m1'' c9_stored2 = [Some 2, Some 2]"
  by code_simp

text \<open>
  C9, amended: the backend's \<open>store\<close> increments the access count of the stored
  record by 1 and sets its \<open>lastAccessed\<close> to the time of the call; so, when exactly
  one backend is registered, a record created by the protocol's \<open>store\<close> without an
  \<open>accessCount\<close> of the caller's has \<open>accessCount = 1\<close> in that backend right after
  the call.
\<close>

theorem C9_store_access:
  "(initialized b \<longrightarrow>
      (\<exists>b' h'. InMemoryBackend_store now ev b h = Inr (b', h')
         \<and> Map_get (events b') (id_e ev) = Some ev
         \<and> accessCount (h' (metadata ev)) = accessCount (h (metadata ev)) + 1
         \<and> lastAccessed (h' (metadata ev)) = now))
   \<and> (initialized_p p \<and> Map_get (sessions p) sid = Some ctx
        \<and> storageBackends p = [(name, b)] \<and> initialized b \<and> default_accessCount md \<longrightarrow>
      (\<exists>p' h' b' e.
         MemoryProtocol_store eventId now a content_s type sid md p h = (Inr eventId, p', h')
         \<and> storageBackends p' = [(name, b')]
         \<and> Map_get (events b') eventId = Some e
         \<and> accessCount (h' (metadata e)) = 1
         \<and> lastAccessed (h' (metadata e)) = now))"
proof (intro conjI impI)
  assume "initialized b"
  then show "\<exists>b' h'. InMemoryBackend_store now ev b h = Inr (b', h')
         \<and> Map_get (events b') (id_e ev) = Some ev
         \<and> accessCount (h' (metadata ev)) = accessCount (h (metadata ev)) + 1
         \<and> lastAccessed (h' (metadata ev)) = now"
    by (simp add: store_Inr Map_get_set_same touch_same)
next
  assume "initialized_p p \<and> Map_get (sessions p) sid = Some ctx
        \<and> storageBackends p = [(name, b)] \<and> initialized b \<and> default_accessCount md"
  then show "\<exists>p' h' b' e.
         MemoryProtocol_store eventId now a content_s type sid md p h = (Inr eventId, p', h')
         \<and> storageBackends p' = [(name, b')]
         \<and> Map_get (events b') eventId = Some e
         \<and> accessCount (h' (metadata e)) = 1
         \<and> lastAccessed (h' (metadata e)) = now"
    by (simp add: MemoryProtocol_store_def Let_def store_Inr Map_get_set_same touch_same
        accessCount_build_metadata)
qed

theorem C9_store_access_witness:
  "initialized empty_backend \<and> initialized_p p1 \<and> Map_get (sessions p1) ''s1'' = Some ctx0
   \<and> storageBackends p1 = [(''in-memory'', empty_backend)] \<and> default_accessCount (Some c4_md)
   \<and> (\<exists>b' h'. InMemoryBackend_store 1000 c4_event empty_backend heap0 = Inr (b', h')
         \<and> Map_get (events b') ''m1'' = Some c4_event
         \<and> accessCount (h' 0) = 1 \<and> lastAccessed (h' 0) = 1000)
   \<and> (\<exists>p' h' b' e.
         MemoryProtocol_store ''m1'' 1000 0 c4_text SEMANTIC ''s1'' (Some c4_md) p1 heap0
           = (Inr ''m1'', p', h')
         \<and> storageBackends p' = [(''in-memory'', b')]
         \<and> Map_get (events b') ''m1'' = Some e
         \<and> accessCount (h' (metadata e)) = 1
         \<and> lastAccessed (h' (metadata e)) = 1000)"
proof -
  have 1: "initialized empty_backend" "initialized_p p1" "Map_get (sessions p1) ''s1'' = Some ctx0"
    "storageBackends p1 = [(''in-memory'', empty_backend)]" "default_accessCount (Some c4_md)"
    by code_simp+
  have 2: "id_e c4_event = ''m1''" "metadata c4_event = 0" "accessCount (heap0 0) = 0"
    by code_simp+
  from C9_store_access [of empty_backend 1000 c4_event heap0 p1 "''s1''" ctx0 "''in-memory''"
      "Some c4_md" "''m1''" 0 c4_text SEMANTIC] 1 2
  show ?thesis by simp
qed

subsection \<open>The backend's update (C5)\<close>

text \<open>
  C5, as the claim has it: metadata is merged key by key, so a metadata key that the
  update does not mention must survive in the stored record.  The stored record has the
  key \<open>project\<close>; the update carries a metadata object without it; after the update
  the stored record's metadata is the update's object and \<open>project\<close> is gone.
\<close>

theorem C5_counterexample:
  "holds ''m1'' c5_backend
   \<and> u_metadata c5_updates = Some 1
   \<and> metadata_get_of c5_backend c5_heap ''m1'' ''project'' = Some (JStr ''apollo'')
   \<and> metadata_get (c5_heap 1) ''project'' = JUndefined
   \<and> stored_metadata_get ''m1'' ''project''
        (InMemoryBackend_update 5000 ''m1'' c5_updates c5_backend c5_heap) = Some JUndefined"
  by code_simp

text \<open>
  C5, amended: on an initialized backend, \<open>update\<close> fails with the not-found error when
  no record is stored under the identifier; otherwise the stored record becomes the old
  record with every property that the update carries replaced wholesale, metadata
  included: the record's metadata object is the update's when the update has one and
  the old one otherwise.  The \<open>updated\<close> time of that metadata object is set to the time
  of the call, and nothing else in any metadata object changes.
\<close>

theorem C5_update:
  assumes "initialized b"
  shows "(Map_get (events b) i = None \<longrightarrow>
            InMemoryBackend_update now i updates b h = Inl (EventNotFound i))
       \<and> (\<forall>event. Map_get (events b) i = Some event \<longrightarrow>
            (\<exists>b' h' stored.
               InMemoryBackend_update now i updates b h = Inr (b', h')
               \<and> Map_get (events b') i = Some stored
               \<and> stored = spread_updates event updates
               \<and> content stored = (case u_content updates of Some c \<Rightarrow> c | None \<Rightarrow> content event)
               \<and> context_e stored =
                   (case u_context updates of Some c \<Rightarrow> c | None \<Rightarrow> context_e event)
               \<and> metadata stored =
                   (case u_metadata updates of Some a \<Rightarrow> a | None \<Rightarrow> metadata event)
               \<and> h' (metadata stored) = (h (metadata stored))\<lparr>updated := now\<rparr>
               \<and> (\<forall>a. a \<noteq> metadata stored \<longrightarrow> h' a = h a)))"
  using assms
  by (auto simp: InMemoryBackend_update_def Let_def Map_get_set_same spread_updates_def
      split: option.splits)

theorem C5_update_witness:
  "initialized c5_backend \<and> Map_get (events c5_backend) ''m1'' = Some c5_event
   \<and> Map_get (events c5_backend) ''m2'' = None
   \<and> InMemoryBackend_update 5000 ''m2'' c5_updates c5_backend c5_heap = Inl (EventNotFound ''m2'')
   \<and> (\<exists>b' h' stored.
         InMemoryBackend_update 5000 ''m1'' c5_updates c5_backend c5_heap = Inr (b', h')
         \<and> Map_get (events b') ''m1'' = Some stored
         \<and> metadata stored = 1
         \<and> h' 1 = (c5_heap 1)\<lparr>updated := 5000\<rparr>
         \<and> h' 0 = c5_heap 0)"
proof -
  have 1: "initialized c5_backend" "Map_get (events c5_backend) ''m1'' = Some c5_event"
    "Map_get (events c5_backend) ''m2'' = None" "u_metadata c5_updates = Some 1"
    by code_simp+
  from C5_update [OF 1(1), of "''m2''" 5000 c5_updates c5_heap] 1
  have 2: "InMemoryBackend_update 5000 ''m2'' c5_updates c5_backend c5_heap
             = Inl (EventNotFound ''m2'')"
    by simp
  from C5_update [OF 1(1), of "''m1''" 5000 c5_updates c5_heap] 1
  obtain b' h' stored where
    "InMemoryBackend_update 5000 ''m1'' c5_updates c5_backend c5_heap = Inr (b', h')"
    "Map_get (events b') ''m1'' = Some stored" "metadata stored = 1"
    "h' (metadata stored) = (c5_heap (metadata stored))\<lparr>updated := 5000\<rparr>"
    "\<forall>a. a \<noteq> metadata stored \<longrightarrow> h' a = c5_heap a"
    by auto
  then have "InMemoryBackend_update 5000 ''m1'' c5_updates c5_backend c5_heap = Inr (b', h')
         \<and> Map_get (events b') ''m1'' = Some stored
         \<and> metadata stored = 1
         \<and> h' 1 = (c5_heap 1)\<lparr>updated := 5000\<rparr>
         \<and> h' 0 = c5_heap 0" by simp
  with 1 2 show ?thesis by blast
qed

subsection \<open>Update and delete through the protocol (C6)\<close>










subsection \<open>Pagination and totalCount (C7)\<close>

lemma Array_slice_take_drop:
  assumes "0 \<le> ofs" and "0 \<le> lmt"
  shows "Array_slice xs ofs (ofs + lmt) = take (nat lmt) (drop (nat ofs) xs)"
proof (cases "ofs \<le> int (length xs)")
  case True
  with assms have "Array_slice xs ofs (ofs + lmt)
      = take (nat (min (ofs + lmt) (int (length xs)) - ofs)) (drop (nat ofs) xs)"
    by (simp add: Array_slice_def Let_def min_def max_def)
  also have "nat (min (ofs + lmt) (int (length xs)) - ofs) = min (nat lmt) (length xs - nat ofs)"
    using True assms by arith
  also have "take (min (nat lmt) (length xs - nat ofs)) (drop (nat ofs) xs)
      = take (min (nat lmt) (length (drop (nat ofs) xs))) (drop (nat ofs) xs)"
    by simp
  also have "\<dots> = take (nat lmt) (drop (nat ofs) xs)"
    by (simp add: min_def)
  finally show ?thesis .
next
  case False
  with assms show ?thesis
    by (simp add: Array_slice_def Let_def min_def max_def)
qed

lemma retrieve_ranked:
  "initialized b \<Longrightarrow>
     InMemoryBackend_retrieve now q b h =
       Inr (\<lparr>memories = Array_slice (ranked q b h) (or_default (offset q) 0)
                          (or_default (offset q) 0 + or_default (limit q) DEFAULT_SEARCH_LIMIT),
             totalCount = length (ranked q b h), query_r = q\<rparr>,
            fold (track_access now b)
              (Array_slice (ranked q b h) (or_default (offset q) 0)
                 (or_default (offset q) 0 + or_default (limit q) DEFAULT_SEARCH_LIMIT)) h)"
  by (simp add: InMemoryBackend_retrieve_def ranked_def candidates_def Let_def)

text \<open>
  C7, amended: on an initialized backend \<open>retrieve\<close> succeeds and returns
  \<open>slice(o, o + l)\<close> of the sorted, filtered candidates, where \<open>o\<close> is the query's
  offset, 0 when absent, and \<open>l\<close> is the query's limit, 10 when absent or zero; for
  \<open>o\<close> and \<open>l\<close> not negative these are the \<open>l\<close> records from position \<open>o\<close> on.
  \<open>totalCount\<close> is the length of the sorted, filtered sequence before slicing.  In
  particular, with \<open>limit = 5\<close> and \<open>offset = 0\<close> and three matching records, all
  three are returned and \<open>totalCount = 3\<close>.
\<close>

theorem C7_pagination:
  fixes q b h now
  defines "S \<equiv> ranked q b h"
    and "ofs \<equiv> or_default (offset q) 0"
    and "lmt \<equiv> or_default (limit q) 10"
    and "R \<equiv> InMemoryBackend_retrieve now q b h"
  assumes "initialized b"
  shows "(\<exists>res h'. R = Inr (res, h'))
       \<and> memories_of R = Array_slice S ofs (ofs + lmt)
       \<and> totalCount_of R = length S
       \<and> (0 \<le> ofs \<and> 0 \<le> lmt \<longrightarrow> memories_of R = take (nat lmt) (drop (nat ofs) S))
       \<and> (limit q = Some 5 \<and> offset q = Some 0 \<and> length S = 3 \<longrightarrow>
            memories_of R = S \<and> totalCount_of R = 3)"
proof -
  have R: "R = Inr (\<lparr>memories = Array_slice S ofs (ofs + lmt),
                     totalCount = length S, query_r = q\<rparr>,
                    fold (track_access now b) (Array_slice S ofs (ofs + lmt)) h)"
    unfolding R_def S_def ofs_def lmt_def
    using retrieve_ranked [OF \<open>initialized b\<close>] by (simp add: DEFAULT_SEARCH_LIMIT_def)
  have m: "memories_of R = Array_slice S ofs (ofs + lmt)" and t: "totalCount_of R = length S"
    by (simp_all add: R memories_of_def totalCount_of_def)
  have 4: "0 \<le> ofs \<and> 0 \<le> lmt \<longrightarrow> memories_of R = take (nat lmt) (drop (nat ofs) S)"
    using m by (simp add: Array_slice_take_drop)
  have 5: "limit q = Some 5 \<and> offset q = Some 0 \<and> length S = 3 \<longrightarrow>
            memories_of R = S \<and> totalCount_of R = 3"
  proof
    assume a: "limit q = Some 5 \<and> offset q = Some 0 \<and> length S = 3"
    then have "ofs = 0" "lmt = 5" by (simp_all add: ofs_def lmt_def or_default_def)
    with m Array_slice_take_drop [of 0 5 S] have "memories_of R = take 5 (drop 0 S)"
      by simp
    with a t show "memories_of R = S \<and> totalCount_of R = 3" by simp
  qed
  from R m t 4 5 show ?thesis by blast
qed


text \<open>
  C7, as the claim has it: the page is the slice from \<open>offset\<close> to \<open>offset + limit\<close>,
  so a query with \<open>limit = 0\<close> and \<open>offset = 0\<close> must get the empty slice.
  \<open>retrieve\<close> takes \<open>0 || DEFAULT_SEARCH_LIMIT\<close>, which is 10, and returns all three
  matching records.
\<close>

theorem C7_counterexample:
  "limit c7_query_zero = Some 0 \<and> offset c7_query_zero = Some 0
   \<and> map id_e (ranked c7_query_zero three_backend three_heap) = [''m2'', ''m3'', ''m1'']
   \<and> map id_e (memories_of (InMemoryBackend_retrieve 2000 c7_query_zero three_backend three_heap))
       = [''m2'', ''m3'', ''m1'']"
  by code_simp

theorem C7_pagination_witness:
  "initialized three_backend \<and> limit c7_query = Some 5 \<and> offset c7_query = Some 0
   \<and> map id_e (ranked c7_query three_backend three_heap) = [''m2'', ''m3'', ''m1'']
   \<and> memories_of (InMemoryBackend_retrieve 2000 c7_query three_backend three_heap)
       = ranked c7_query three_backend three_heap
   \<and> totalCount_of (InMemoryBackend_retrieve 2000 c7_query three_backend three_heap) = 3"
proof -
  have 1: "initialized three_backend" "limit c7_query = Some 5" "offset c7_query = Some 0"
    "map id_e (ranked c7_query three_backend three_heap) = [''m2'', ''m3'', ''m1'']"
    by code_simp+
  have 2: "length (ranked c7_query three_backend three_heap) = 3"
    by code_simp
  from C7_pagination [OF 1(1), where q = c7_query and h = three_heap and now = 2000] 1(2,3) 2
  have "memories_of (InMemoryBackend_retrieve 2000 c7_query three_backend three_heap)
       = ranked c7_query three_backend three_heap
   \<and> totalCount_of (InMemoryBackend_retrieve 2000 c7_query three_backend three_heap) = 3"
    by blast
  with 1 show ?thesis by blast
qed

subsection \<open>Consolidation (C2)\<close>






subsection \<open>Access tracking of retrieve (C3)\<close>

lemma applyFilters_filter: "applyFilters evs q h = filter (passes_filters q h) evs"
  by (auto simp: applyFilters_def passes_filters_def Let_def split: option.splits
      intro!: filter_cong)

lemma set_insert_sorted: "set (insert_sorted cmp x ys) = insert x (set ys)"
  by (induction ys) auto

lemma distinct_map_insert_sorted:
  "distinct (map f (insert_sorted cmp x ys)) \<longleftrightarrow> f x \<notin> f ` set ys \<and> distinct (map f ys)"
  by (induction ys) (auto simp: set_insert_sorted)

lemma set_Array_sort: "set (Array_sort cmp xs) = set xs"
  by (induction xs) (simp_all add: Array_sort_def set_insert_sorted)

lemma distinct_map_Array_sort:
  "distinct (map f (Array_sort cmp xs)) \<longleftrightarrow> distinct (map f xs)"
proof (induction xs)
  case Nil
  then show ?case by (simp add: Array_sort_def)
next
  case (Cons x xs)
  have "Array_sort cmp (x # xs) = insert_sorted cmp x (Array_sort cmp xs)"
    by (simp add: Array_sort_def)
  with Cons show ?case
    by (simp add: distinct_map_insert_sorted set_Array_sort)
qed

lemma Array_slice_take_drop_ex: "\<exists>n k. Array_slice xs s e = take n (drop k xs)"
  by (auto simp: Array_slice_def Let_def)

lemma set_Array_slice: "set (Array_slice xs s e) \<subseteq> set xs"
proof -
  obtain n k where "Array_slice xs s e = take n (drop k xs)"
    using Array_slice_take_drop_ex by blast
  then show ?thesis
    by (metis set_drop_subset set_take_subset subset_trans)
qed

lemma distinct_map_Array_slice:
  "distinct (map f xs) \<Longrightarrow> distinct (map f (Array_slice xs s e))"
proof -
  assume d: "distinct (map f xs)"
  obtain n k where "Array_slice xs s e = take n (drop k xs)"
    using Array_slice_take_drop_ex by blast
  then have "map f (Array_slice xs s e) = take n (drop k (map f xs))"
    by (simp add: take_map drop_map)
  with d show ?thesis by simp
qed

lemma Map_get_Some_mem: "Map_get m k = Some v \<Longrightarrow> (k, v) \<in> set m"
  by (induction m) (auto split: if_splits)

lemma Map_get_distinct: "distinct (map fst m) \<Longrightarrow> (k, v) \<in> set m \<Longrightarrow> Map_get m k = Some v"
  by (induction m) (auto simp: rev_image_eqI)

lemma searchEvents_map_filter:
  "searchEvents q b =
     map (\<lambda>event. event\<lparr>score_e := Some (event_score (toLowerCase (query q)) event)\<rparr>)
       (filter (\<lambda>event. or_default (threshold q) 0.5 \<le> event_score (toLowerCase (query q)) event)
          (Map_values (events b)))"
  by (simp add: searchEvents_def Let_def concat_map_if)

lemma searchEvents_stored:
  assumes "x \<in> set (searchEvents q b)"
  shows "\<exists>k s. (k, s) \<in> set (events b) \<and> id_e x = id_e s \<and> metadata x = metadata s"
proof -
  from assms obtain s where "s \<in> set (Map_values (events b))"
    and x: "x = s\<lparr>score_e := Some (event_score (toLowerCase (query q)) s)\<rparr>"
    unfolding searchEvents_map_filter by auto
  then obtain k where "(k, s) \<in> set (events b)"
    by (auto simp: Map_values_def)
  with x show ?thesis by auto
qed

text \<open>Every candidate is a stored record, up to its score.\<close>

lemma candidates_stored:
  assumes "x \<in> set (candidates q b)"
  shows "\<exists>k s. (k, s) \<in> set (events b) \<and> id_e x = id_e s \<and> metadata x = metadata s"
proof (cases "x \<in> set (searchEvents q b)")
  case True
  then show ?thesis by (rule searchEvents_stored)
next
  case False
  with assms obtain i where "Map_get (events b) i = Some x"
    by (auto simp: candidates_def split: option.splits if_splits)
  then have "(i, x) \<in> set (events b)" by (rule Map_get_Some_mem)
  then show ?thesis by blast
qed

lemma distinct_metadata_candidates:
  assumes "distinct (map (\<lambda>(k, e). metadata e) (events b))"
  shows "distinct (map metadata (candidates q b))"
proof -
  have v: "distinct (map metadata (Map_values (events b)))"
    using assms by (simp add: Map_values_def case_prod_unfold comp_def)
  have "map metadata (searchEvents q b)
      = map metadata (filter (\<lambda>event. or_default (threshold q) 0.5
                                \<le> event_score (toLowerCase (query q)) event)
          (Map_values (events b)))"
    unfolding searchEvents_map_filter by (simp add: comp_def)
  with v have s: "distinct (map metadata (searchEvents q b))"
    by (simp add: distinct_map_filter)
  show ?thesis
    by (auto simp: candidates_def s split: option.splits)
qed

lemma ranked_filter_sort:
  "ranked q b h = Array_sort (compare_events h) (filter (passes_filters q h) (candidates q b))"
  by (simp add: ranked_def sortResults_def applyFilters_filter)

lemma ranked_stored:
  assumes "x \<in> set (ranked q b h)"
  shows "\<exists>k s. (k, s) \<in> set (events b) \<and> id_e x = id_e s \<and> metadata x = metadata s"
proof -
  from assms have "x \<in> set (candidates q b)"
    by (simp add: ranked_filter_sort set_Array_sort)
  then show ?thesis by (rule candidates_stored)
qed

lemma distinct_metadata_ranked:
  assumes "distinct (map (\<lambda>(k, e). metadata e) (events b))"
  shows "distinct (map metadata (ranked q b h))"
  using distinct_metadata_candidates [OF assms, of q]
  by (simp add: ranked_filter_sort distinct_map_Array_sort distinct_map_filter)

text \<open>Touching the metadata objects of a list of events, each object once.\<close>

lemma fold_touch:
  "distinct (map g xs) \<Longrightarrow>
     fold (\<lambda>x. touch now (g x)) xs h a =
       (if a \<in> g ` set xs
        then (h a)\<lparr>lastAccessed := now, accessCount := accessCount (h a) + 1\<rparr>
        else h a)"
proof (induction xs arbitrary: h)
  case Nil
  then show ?case by simp
next
  case (Cons x xs)
  then have IH: "fold (\<lambda>x. touch now (g x)) xs (touch now (g x) h) a =
       (if a \<in> g ` set xs
        then (touch now (g x) h a)\<lparr>lastAccessed := now,
               accessCount := accessCount (touch now (g x) h a) + 1\<rparr>
        else touch now (g x) h a)"
    by simp
  from Cons.prems have nx: "g x \<notin> g ` set xs" by simp
  show ?case
  proof (cases "a = g x")
    case True
    with nx IH show ?thesis by (simp add: touch_same)
  next
    case False
    with IH show ?thesis by (simp add: touch_other)
  qed
qed

lemma track_access_touch:
  assumes "well_formed b"
    and "(k, s) \<in> set (events b)" and "id_e x = id_e s" and "metadata x = metadata s"
  shows "track_access now b x = touch now (metadata x)"
proof -
  from assms(1,2) have "id_e s = k"
    by (auto simp: well_formed_def list_all_iff)
  with assms have "Map_get (events b) (id_e x) = Some s"
    by (simp add: well_formed_def Map_get_distinct)
  with assms(4) show ?thesis by (simp add: track_access_def fun_eq_iff)
qed

lemma fold_track_access:
  assumes "well_formed b"
    and "\<forall>x\<in>set xs. \<exists>k s. (k, s) \<in> set (events b) \<and> id_e x = id_e s \<and> metadata x = metadata s"
  shows "fold (track_access now b) xs h = fold (\<lambda>x. touch now (metadata x)) xs h"
  using assms(2)
proof (induction xs arbitrary: h)
  case Nil
  then show ?case by simp
next
  case (Cons x xs)
  then obtain k s where "(k, s) \<in> set (events b)" "id_e x = id_e s" "metadata x = metadata s"
    by auto
  with assms(1) have "track_access now b x = touch now (metadata x)"
    by (rule track_access_touch)
  with Cons show ?case by simp
qed

text \<open>
  C3, amended: take an initialized backend whose records are stored under their own
  identifiers, each with a metadata object of its own.  After a \<open>retrieve\<close>, every
  record of the returned page is held by the backend, the stored record and the
  returned one have the same metadata object, and that object has its access count
  incremented by exactly 1 and its \<open>lastAccessed\<close> set to the time of the call.  The
  returned record therefore shows the increment as well.
\<close>

theorem C3_access_tracking:
  assumes "initialized b" and "well_formed b"
    and "InMemoryBackend_retrieve now q b h = Inr (res, h')"
    and "e \<in> set (memories res)"
  shows "\<exists>stored. Map_get (events b) (id_e e) = Some stored
           \<and> metadata stored = metadata e
           \<and> accessCount (h' (metadata stored)) = accessCount (h (metadata stored)) + 1
           \<and> lastAccessed (h' (metadata stored)) = now"
proof -
  define page where "page = Array_slice (ranked q b h) (or_default (offset q) 0)
      (or_default (offset q) 0 + or_default (limit q) DEFAULT_SEARCH_LIMIT)"
  from assms(1,3) have res: "memories res = page" and h': "h' = fold (track_access now b) page h"
    by (auto simp: retrieve_ranked page_def)
  have sub: "set page \<subseteq> set (ranked q b h)"
    unfolding page_def by (rule set_Array_slice)
  then have st: "\<forall>x\<in>set page. \<exists>k s. (k, s) \<in> set (events b) \<and> id_e x = id_e s
      \<and> metadata x = metadata s"
    using ranked_stored by blast
  from assms(2) have "distinct (map metadata (ranked q b h))"
    by (simp add: well_formed_def distinct_metadata_ranked)
  then have d: "distinct (map metadata page)"
    unfolding page_def by (rule distinct_map_Array_slice)
  from assms(4) res have e: "e \<in> set page" by simp
  with st obtain k s where ks: "(k, s) \<in> set (events b)" "id_e e = id_e s"
    "metadata e = metadata s" by blast
  with assms(2) have "id_e s = k" by (auto simp: well_formed_def list_all_iff)
  with ks assms(2) have get: "Map_get (events b) (id_e e) = Some s"
    by (simp add: well_formed_def Map_get_distinct)
  have "h' = fold (\<lambda>x. touch now (metadata x)) page h"
    unfolding h' using assms(2) st by (rule fold_track_access)
  with d e have "h' (metadata e)
      = (h (metadata e))\<lparr>lastAccessed := now, accessCount := accessCount (h (metadata e)) + 1\<rparr>"
    by (simp add: fold_touch)
  with get ks(3) show ?thesis by simp
qed

text \<open>
  C3, as the claim has it: the returned record is a snapshot taken before the
  increment.  The record \<open>m2\<close> has access count 1 before the call; the access count
  read from the returned record after the call is 2: the spread copy that
  \<open>searchEvents\<close> makes shares the metadata object of the stored record.
\<close>

theorem C3_counterexample:
  "initialized three_backend \<and> well_formed three_backend
   \<and> map id_e (memories_of (InMemoryBackend_retrieve 2000 c3_query three_backend three_heap))
       = [''m2'']
   \<and> metadata_get_of three_backend three_heap ''m2'' ''accessCount'' = Some (JNum 1)
   \<and> returned_accessCounts three_heap
        (InMemoryBackend_retrieve 2000 c3_query three_backend three_heap) = [2]"
  by code_simp

theorem C3_access_tracking_witness:
  "initialized three_backend \<and> well_formed three_backend
   \<and> map id_e (memories_of (InMemoryBackend_retrieve 2000 c3_query three_backend three_heap))
       = [''m2'']
   \<and> map_option metadata (Map_get (events three_backend) ''m2'') = Some 1
   \<and> accessCount (three_heap 1) = 1
   \<and> accessCount
        (heap_of three_heap (InMemoryBackend_retrieve 2000 c3_query three_backend three_heap) 1) = 2
   \<and> lastAccessed
        (heap_of three_heap (InMemoryBackend_retrieve 2000 c3_query three_backend three_heap) 1)
       = 2000"
proof -
  define R where "R = InMemoryBackend_retrieve 2000 c3_query three_backend three_heap"
  define e where "e = (mk_event ''m2'' ''note b'' [] 1)\<lparr>score_e := Some 1.4\<rparr>"
  have 1: "initialized three_backend" "well_formed three_backend"
    "map_option metadata (Map_get (events three_backend) ''m2'') = Some 1"
    "accessCount (three_heap 1) = 1"
    by code_simp+
  have 2: "memories_of R = [e]" "id_e e = ''m2''" "metadata e = 1"
    unfolding R_def e_def by code_simp+
  from retrieve_ranked [OF 1(1), of 2000 c3_query three_heap]
  obtain res h' where R: "R = Inr (res, h')"
    unfolding R_def by simp
  with 2 have m: "e \<in> set (memories res)" by (simp add: memories_of_def)
  from C3_access_tracking [OF 1(1,2) R [unfolded R_def] m] 2(2,3) 1(4)
  have "accessCount (h' 1) = 2 \<and> lastAccessed (h' 1) = 2000"
    by auto
  with R have "accessCount (heap_of three_heap R 1) = 2 \<and> lastAccessed (heap_of three_heap R 1) = 2000"
    by (simp add: heap_of_def)
  with 1 2 show ?thesis unfolding R_def by simp
qed

subsection \<open>Paging through the result (C8)\<close>




















end
